theory Spec2Isabelle
  imports Main "HOL-Library.Word"
begin

section \<open>The PatientData contract (contracts/PatientData.sol)\<close>

text \<open>
  A shallow embedding of the Solidity contract \<^verbatim>\<open>PatientData\<close>. Addresses are 160-bit
  words, \<^verbatim>\<open>uint256\<close> values are 256-bit words, strings are byte lists. A Solidity
  \<^verbatim>\<open>mapping\<close> is a total function whose unwritten slots hold the zero value of the
  value type. The events a call emits are appended to an event log that is kept as one
  more component of the state. \<^verbatim>\<open>msg.sender\<close> and \<^verbatim>\<open>block.timestamp\<close> are the
  parameters \<open>sender\<close> and \<open>now\<close> of every function.
\<close>

subsection \<open>Data\<close>

type_synonym address = "160 word"
type_synonym uint256 = "256 word"

record MedicalRecord =
  name :: string
  age :: uint256
  medicalHistory :: string
  ipfsHash :: string
  timestamp :: uint256
  exists :: bool

text \<open>The third field of \<^verbatim>\<open>AccessPermission\<close> is called \<^verbatim>\<open>timestamp\<close> in the source;
  it is renamed here because \<open>MedicalRecord\<close> has a field of that name already.\<close>

record AccessPermission =
  doctor :: address
  granted :: bool
  permission_timestamp :: uint256

datatype event =
    MedicalRecordAdded address string uint256 uint256
  | AccessGranted address address uint256
  | AccessRevoked address address uint256
  | RecordAccessed address address uint256

record contract =
  patientRecords :: "address \<Rightarrow> MedicalRecord"
  doctorAccess :: "address \<Rightarrow> address \<Rightarrow> AccessPermission"
  patientDoctors :: "address \<Rightarrow> address list"
  eventLog :: "event list"

text \<open>The state right after deployment: every slot holds its zero value, nothing was emitted.\<close>

definition deployed :: contract where
  "deployed =
     \<lparr>patientRecords = (\<lambda>_. \<lparr>name = [], age = 0, medicalHistory = [], ipfsHash = [],
                                timestamp = 0, exists = False\<rparr>),
      doctorAccess = (\<lambda>_ _. \<lparr>doctor = 0, granted = False, permission_timestamp = 0\<rparr>),
      patientDoctors = (\<lambda>_. []),
      eventLog = []\<rparr>"

subsection \<open>Reverts and statements\<close>

text \<open>One constructor for each \<^verbatim>\<open>require\<close> message of the contract.\<close>

datatype revert =
    Only_patient_can_perform_this_action
  | Patient_record_does_not_exist
  | Access_denied
  | Name_cannot_be_empty
  | Invalid_age
  | Medical_history_cannot_be_empty
  | Invalid_doctor_address
  | Cannot_grant_access_to_yourself
  | Access_already_granted
  | Access_not_granted

text \<open>
  A piece of contract code maps the state it starts in to a result and the state it
  has reached: \<open>Inr v\<close> when it ran to its end with value \<open>v\<close>, \<open>Inl msg\<close> when a
  \<^verbatim>\<open>require\<close> failed, with the state reached at that point. The roll-back that the
  EVM performs on a revert is not part of this raw execution; it is \<open>transact\<close> below.
\<close>

type_synonym 'a code = "contract \<Rightarrow> (revert + 'a) \<times> contract"

definition require :: "(contract \<Rightarrow> bool) \<Rightarrow> revert \<Rightarrow> unit code" where
  "require cond msg s = (if cond s then (Inr (), s) else (Inl msg, s))"

definition store :: "(contract \<Rightarrow> contract) \<Rightarrow> unit code" where
  "store f s = (Inr (), f s)"

definition emit :: "event \<Rightarrow> unit code" where
  "emit e s = (Inr (), s\<lparr>eventLog := eventLog s @ [e]\<rparr>)"

text \<open>An \<^verbatim>\<open>if\<close> without \<^verbatim>\<open>else\<close>.\<close>

definition if_then :: "bool \<Rightarrow> unit code \<Rightarrow> unit code" where
  "if_then b c s = (if b then c s else (Inr (), s))"

text \<open>Statements in sequence; the first failing one ends the run.\<close>

fun block :: "unit code list \<Rightarrow> unit code" where
  "block [] s = (Inr (), s)"
| "block (c # cs) s = (case c s of (Inl msg, s') \<Rightarrow> (Inl msg, s') | (Inr _, s') \<Rightarrow> block cs s')"

text \<open>A function body followed by \<^verbatim>\<open>return val\<close>.\<close>

definition returns :: "unit code \<Rightarrow> (contract \<Rightarrow> 'a) \<Rightarrow> 'a code" where
  "returns body val s =
     (case body s of (Inl msg, s') \<Rightarrow> (Inl msg, s') | (Inr _, s') \<Rightarrow> (Inr (val s'), s'))"

text \<open>An external call as the EVM runs it: a revert discards every change of the call,
  emitted events included.\<close>

definition transact :: "'a code \<Rightarrow> 'a code" where
  "transact f s = (case f s of (Inl msg, _) \<Rightarrow> (Inl msg, s) | (Inr v, s') \<Rightarrow> (Inr v, s'))"

subsection \<open>Modifiers\<close>

definition onlyPatient :: "address \<Rightarrow> address \<Rightarrow> unit code" where
  "onlyPatient sender patient =
     require (\<lambda>_. sender = patient) Only_patient_can_perform_this_action"

definition patientExists :: "address \<Rightarrow> unit code" where
  "patientExists patient =
     require (\<lambda>s. exists (patientRecords s patient)) Patient_record_does_not_exist"

definition hasAccess :: "address \<Rightarrow> address \<Rightarrow> unit code" where
  "hasAccess sender patient =
     require (\<lambda>s. sender = patient \<or>
                  (granted (doctorAccess s patient sender) \<and>
                   doctor (doctorAccess s patient sender) = sender))
             Access_denied"

subsection \<open>Functions\<close>

definition addMedicalRecord ::
  "address \<Rightarrow> uint256 \<Rightarrow> string \<Rightarrow> uint256 \<Rightarrow> string \<Rightarrow> string \<Rightarrow> unit code" where
  "addMedicalRecord sender now n a h ipfs =
     returns (block
       [require (\<lambda>_. length n > 0) Name_cannot_be_empty,
        require (\<lambda>_. a > 0 \<and> a < 150) Invalid_age,
        require (\<lambda>_. length h > 0) Medical_history_cannot_be_empty,
        store (\<lambda>s. s\<lparr>patientRecords := (patientRecords s)
                 (sender := \<lparr>name = n, age = a, medicalHistory = h, ipfsHash = ipfs,
                             timestamp = now, exists = True\<rparr>)\<rparr>),
        emit (MedicalRecordAdded sender n a now)])
       (\<lambda>_. ())"

definition grantAccess :: "address \<Rightarrow> uint256 \<Rightarrow> address \<Rightarrow> unit code" where
  "grantAccess sender now d =
     returns (block
       [onlyPatient sender sender,
        patientExists sender,
        require (\<lambda>_. d \<noteq> 0) Invalid_doctor_address,
        require (\<lambda>_. d \<noteq> sender) Cannot_grant_access_to_yourself,
        require (\<lambda>s. \<not> granted (doctorAccess s sender d)) Access_already_granted,
        store (\<lambda>s. s\<lparr>doctorAccess := (doctorAccess s)
                 (sender := (doctorAccess s sender)
                    (d := \<lparr>doctor = d, granted = True, permission_timestamp = now\<rparr>))\<rparr>),
        store (\<lambda>s. s\<lparr>patientDoctors := (patientDoctors s)
                 (sender := patientDoctors s sender @ [d])\<rparr>),
        emit (AccessGranted sender d now)])
       (\<lambda>_. ())"

text \<open>
  The loop of \<^verbatim>\<open>revokeAccess\<close> over \<^verbatim>\<open>doctors\<close>, from index \<open>i\<close> on: at the first
  index that holds \<open>d\<close> the last element is copied into that slot, the array is popped
  and the loop is left. The counter is a \<^verbatim>\<open>uint\<close> in the source; it stays below the
  array length, which storage bounds by \<open>2 ^ 256\<close>, so its increment never overflows and
  a natural number models it.
\<close>

function removeDoctor :: "nat \<Rightarrow> address \<Rightarrow> address list \<Rightarrow> address list" where
  "removeDoctor i d doctors =
     (if i < length doctors
      then (if doctors ! i = d
            then butlast (doctors[i := doctors ! (length doctors - 1)])
            else removeDoctor (i + 1) d doctors)
      else doctors)"
  by pat_completeness auto
termination
  by (relation "measure (\<lambda>(i, d, doctors). length doctors - i)") auto

declare removeDoctor.simps [simp del]

definition revokeAccess :: "address \<Rightarrow> uint256 \<Rightarrow> address \<Rightarrow> unit code" where
  "revokeAccess sender now d =
     returns (block
       [onlyPatient sender sender,
        patientExists sender,
        require (\<lambda>s. granted (doctorAccess s sender d)) Access_not_granted,
        store (\<lambda>s. s\<lparr>doctorAccess := (doctorAccess s)
                 (sender := (doctorAccess s sender)
                    (d := (doctorAccess s sender d)\<lparr>granted := False\<rparr>))\<rparr>),
        store (\<lambda>s. s\<lparr>patientDoctors := (patientDoctors s)
                 (sender := removeDoctor 0 d (patientDoctors s sender))\<rparr>),
        emit (AccessRevoked sender d now)])
       (\<lambda>_. ())"

definition getMedicalRecord :: "address \<Rightarrow> address \<Rightarrow> MedicalRecord code" where
  "getMedicalRecord sender patient =
     returns (block [hasAccess sender patient, patientExists patient])
       (\<lambda>s. patientRecords s patient)"

definition accessMedicalRecord :: "address \<Rightarrow> uint256 \<Rightarrow> address \<Rightarrow> MedicalRecord code" where
  "accessMedicalRecord sender now patient =
     returns (block
       [hasAccess sender patient,
        patientExists patient,
        if_then (sender \<noteq> patient) (emit (RecordAccessed patient sender now))])
       (\<lambda>s. patientRecords s patient)"

definition checkAccess :: "address \<Rightarrow> address \<Rightarrow> bool code" where
  "checkAccess patient d = returns (block []) (\<lambda>s. granted (doctorAccess s patient d))"

definition getAuthorizedDoctors :: "address \<Rightarrow> address \<Rightarrow> address list code" where
  "getAuthorizedDoctors sender patient =
     returns (block [onlyPatient sender patient]) (\<lambda>s. patientDoctors s patient)"

definition getMyRecord :: "address \<Rightarrow> MedicalRecord code" where
  "getMyRecord sender = returns (block [patientExists sender]) (\<lambda>s. patientRecords s sender)"

definition recordExists :: "address \<Rightarrow> bool code" where
  "recordExists patient = returns (block []) (\<lambda>s. exists (patientRecords s patient))"

subsection \<open>External calls and reachable states\<close>

text \<open>The nine external functions of the contract, with their arguments.\<close>

datatype invocation =
    AddMedicalRecord string uint256 string string
  | GrantAccess address
  | RevokeAccess address
  | GetMedicalRecord address
  | AccessMedicalRecord address
  | CheckAccess address address
  | GetAuthorizedDoctors address
  | GetMyRecord
  | RecordExists address

text \<open>The same run with the returned value dropped, so that all functions have one type.\<close>

definition forget :: "'a code \<Rightarrow> unit code" where
  "forget f s = (case f s of (Inl msg, s') \<Rightarrow> (Inl msg, s') | (Inr _, s') \<Rightarrow> (Inr (), s'))"

fun run :: "address \<Rightarrow> uint256 \<Rightarrow> invocation \<Rightarrow> unit code" where
  "run sender now (AddMedicalRecord n a h ipfs) = forget (addMedicalRecord sender now n a h ipfs)"
| "run sender now (GrantAccess d) = forget (grantAccess sender now d)"
| "run sender now (RevokeAccess d) = forget (revokeAccess sender now d)"
| "run sender now (GetMedicalRecord patient) = forget (getMedicalRecord sender patient)"
| "run sender now (AccessMedicalRecord patient) = forget (accessMedicalRecord sender now patient)"
| "run sender now (CheckAccess patient d) = forget (checkAccess patient d)"
| "run sender now (GetAuthorizedDoctors patient) = forget (getAuthorizedDoctors sender patient)"
| "run sender now GetMyRecord = forget (getMyRecord sender)"
| "run sender now (RecordExists patient) = forget (recordExists patient)"

text \<open>The states the contract can be in: the deployed one, and every state that an
  external call by any sender at any time leads to from such a state.\<close>

inductive reachable :: "contract \<Rightarrow> bool" where
  init: "reachable deployed"
| call: "reachable s \<Longrightarrow> reachable (snd (transact (run sender now c) s))"

text \<open>The calls that the specification counts as mutating: the three writers, and
  \<^verbatim>\<open>accessMedicalRecord\<close> by someone other than the patient.\<close>

fun mutating :: "address \<Rightarrow> invocation \<Rightarrow> bool" where
  "mutating sender (AddMedicalRecord n a h ipfs) = True"
| "mutating sender (GrantAccess d) = True"
| "mutating sender (RevokeAccess d) = True"
| "mutating sender (AccessMedicalRecord patient) = (sender \<noteq> patient)"
| "mutating sender c = False"

subsection \<open>The specification's vocabulary\<close>

text \<open>The error taxonomy of the specification (section 7), and the class of each
  \<^verbatim>\<open>require\<close> message of the contract in it.\<close>

datatype error_kind =
  ValidationError | NotFound | InvalidDoctor | AlreadyGranted | NotGranted | AccessDenied

fun kind :: "revert \<Rightarrow> error_kind" where
  "kind Name_cannot_be_empty = ValidationError"
| "kind Invalid_age = ValidationError"
| "kind Medical_history_cannot_be_empty = ValidationError"
| "kind Patient_record_does_not_exist = NotFound"
| "kind Invalid_doctor_address = InvalidDoctor"
| "kind Cannot_grant_access_to_yourself = InvalidDoctor"
| "kind Access_already_granted = AlreadyGranted"
| "kind Access_not_granted = NotGranted"
| "kind Access_denied = AccessDenied"
| "kind Only_patient_can_perform_this_action = AccessDenied"

text \<open>The class of the failure of a call, \<open>None\<close> when the call succeeded.\<close>

definition failure :: "(revert + 'a) \<times> contract \<Rightarrow> error_kind option" where
  "failure r = (case fst r of Inl msg \<Rightarrow> Some (kind msg) | Inr _ \<Rightarrow> None)"

text \<open>\<^verbatim>\<open>check(patient, doctor)\<close> is what \<^verbatim>\<open>checkAccess\<close> returns, and
  \<^verbatim>\<open>listAuthorizedDoctors(patient)\<close> is what \<^verbatim>\<open>getAuthorizedDoctors\<close> returns to the
  patient, the only caller it admits.\<close>

definition check :: "contract \<Rightarrow> address \<Rightarrow> address \<Rightarrow> bool" where
  "check s patient d = (fst (transact (checkAccess patient d) s) = Inr True)"

definition listAuthorizedDoctors :: "contract \<Rightarrow> address \<Rightarrow> address list" where
  "listAuthorizedDoctors s patient =
     (case fst (transact (getAuthorizedDoctors patient patient) s) of
        Inr doctors \<Rightarrow> doctors
      | Inl _ \<Rightarrow> [])"

text \<open>
  Modelled from the spec: the sequence number that \<^verbatim>\<open>EventLog.append\<close> assigns to an
  event. The contract only emits events and stores no number with them; the
  specification numbers the appended events 1, 2, 3, ... in the order of appending, which
  is the position of the event in the log.
\<close>

definition numbered :: "event list \<Rightarrow> (nat \<times> event) list" where
  "numbered log = enumerate 1 log"

subsection \<open>A run of the contract\<close>

text \<open>
  Patient 1 stores a record and grants access to the doctors 2, 3 and 4, in this order,
  at the times 100 to 103.
\<close>

definition registered :: contract where
  "registered =
     snd (transact (run 1 100 (AddMedicalRecord ''Jane Doe'' 40 ''Asthma'' '''')) deployed)"

definition one_doctor :: contract where
  "one_doctor = snd (transact (run 1 101 (GrantAccess 2)) registered)"

definition two_doctors :: contract where
  "two_doctors = snd (transact (run 1 102 (GrantAccess 3)) one_doctor)"

definition three_doctors :: contract where
  "three_doctors = snd (transact (run 1 103 (GrantAccess 4)) two_doctors)"

text \<open>Then patient 1 revokes the access of doctor 2, the first one granted.\<close>

definition first_revoked :: contract where
  "first_revoked = snd (transact (run 1 104 (RevokeAccess 2)) three_doctors)"

text \<open>A second run: patient 1 revokes doctor 2 right after granting doctor 3, at time
  102, and grants doctor 4 only then, at time 103.\<close>

definition revoked_early :: contract where
  "revoked_early = snd (transact (run 1 102 (RevokeAccess 2)) two_doctors)"

definition other_order :: contract where
  "other_order = snd (transact (run 1 103 (GrantAccess 4)) revoked_early)"

subsection \<open>The invariant of the reachable states\<close>

text \<open>
  The list of a patient holds exactly the doctors whose permission is granted, each of
  them once, and a granted permission names its doctor, belongs to a patient with a
  record, and is never for the zero address or for the patient.
\<close>

definition consistent :: "contract \<Rightarrow> bool" where
  "consistent s \<longleftrightarrow>
     (\<forall>p d. (d \<in> set (patientDoctors s p)) = granted (doctorAccess s p d)) \<and>
     (\<forall>p. distinct (patientDoctors s p)) \<and>
     (\<forall>p d. granted (doctorAccess s p d) \<longrightarrow>
        doctor (doctorAccess s p d) = d \<and> exists (patientRecords s p) \<and> d \<noteq> 0 \<and> d \<noteq> p)"

section \<open>What each function does\<close>

text \<open>Each function as one case distinction over the state it is called in.\<close>

lemma addMedicalRecord_run:
  "addMedicalRecord sender now n a h ipfs s =
     (if n = [] then (Inl Name_cannot_be_empty, s)
      else if \<not> (0 < a \<and> a < 150) then (Inl Invalid_age, s)
      else if h = [] then (Inl Medical_history_cannot_be_empty, s)
      else (Inr (), s\<lparr>patientRecords := (patientRecords s)
                 (sender := \<lparr>name = n, age = a, medicalHistory = h, ipfsHash = ipfs,
                             timestamp = now, exists = True\<rparr>),
               eventLog := eventLog s @ [MedicalRecordAdded sender n a now]\<rparr>))"
  by (simp add: addMedicalRecord_def returns_def require_def store_def emit_def)

lemma grantAccess_run:
  "grantAccess sender now d s =
     (if \<not> exists (patientRecords s sender) then (Inl Patient_record_does_not_exist, s)
      else if d = 0 then (Inl Invalid_doctor_address, s)
      else if d = sender then (Inl Cannot_grant_access_to_yourself, s)
      else if granted (doctorAccess s sender d) then (Inl Access_already_granted, s)
      else (Inr (), s\<lparr>doctorAccess := (doctorAccess s)
                 (sender := (doctorAccess s sender)
                    (d := \<lparr>doctor = d, granted = True, permission_timestamp = now\<rparr>)),
               patientDoctors := (patientDoctors s)
                 (sender := patientDoctors s sender @ [d]),
               eventLog := eventLog s @ [AccessGranted sender d now]\<rparr>))"
  by (simp add: grantAccess_def returns_def require_def store_def emit_def
      onlyPatient_def patientExists_def)

lemma revokeAccess_run:
  "revokeAccess sender now d s =
     (if \<not> exists (patientRecords s sender) then (Inl Patient_record_does_not_exist, s)
      else if \<not> granted (doctorAccess s sender d) then (Inl Access_not_granted, s)
      else (Inr (), s\<lparr>doctorAccess := (doctorAccess s)
                 (sender := (doctorAccess s sender)
                    (d := (doctorAccess s sender d)\<lparr>granted := False\<rparr>)),
               patientDoctors := (patientDoctors s)
                 (sender := removeDoctor 0 d (patientDoctors s sender)),
               eventLog := eventLog s @ [AccessRevoked sender d now]\<rparr>))"
  by (simp add: revokeAccess_def returns_def require_def store_def emit_def
      onlyPatient_def patientExists_def)

lemma accessMedicalRecord_run:
  "accessMedicalRecord sender now patient s =
     (if \<not> (sender = patient \<or>
              (granted (doctorAccess s patient sender) \<and>
               doctor (doctorAccess s patient sender) = sender))
      then (Inl Access_denied, s)
      else if \<not> exists (patientRecords s patient) then (Inl Patient_record_does_not_exist, s)
      else if sender \<noteq> patient
      then (Inr (patientRecords s patient),
            s\<lparr>eventLog := eventLog s @ [RecordAccessed patient sender now]\<rparr>)
      else (Inr (patientRecords s patient), s))"
  by (simp add: accessMedicalRecord_def returns_def require_def emit_def if_then_def
      hasAccess_def patientExists_def)

lemma getMedicalRecord_run:
  "getMedicalRecord sender patient s =
     (if \<not> (sender = patient \<or>
              (granted (doctorAccess s patient sender) \<and>
               doctor (doctorAccess s patient sender) = sender))
      then (Inl Access_denied, s)
      else if \<not> exists (patientRecords s patient) then (Inl Patient_record_does_not_exist, s)
      else (Inr (patientRecords s patient), s))"
  by (simp add: getMedicalRecord_def returns_def require_def hasAccess_def patientExists_def)

lemma checkAccess_run: "checkAccess patient d s = (Inr (granted (doctorAccess s patient d)), s)"
  by (simp add: checkAccess_def returns_def)

lemma getAuthorizedDoctors_run:
  "getAuthorizedDoctors sender patient s =
     (if sender = patient then (Inr (patientDoctors s patient), s)
      else (Inl Only_patient_can_perform_this_action, s))"
  by (simp add: getAuthorizedDoctors_def returns_def require_def onlyPatient_def)

lemma getMyRecord_run:
  "getMyRecord sender s =
     (if exists (patientRecords s sender) then (Inr (patientRecords s sender), s)
      else (Inl Patient_record_does_not_exist, s))"
  by (simp add: getMyRecord_def returns_def require_def patientExists_def)

lemma recordExists_run: "recordExists patient s = (Inr (exists (patientRecords s patient)), s)"
  by (simp add: recordExists_def returns_def)

lemmas run_simps = addMedicalRecord_run grantAccess_run revokeAccess_run
  accessMedicalRecord_run getMedicalRecord_run checkAccess_run getAuthorizedDoctors_run
  getMyRecord_run recordExists_run

subsection \<open>The removal loop\<close>

lemma removeDoctor_found:
  "d \<notin> set pre \<Longrightarrow> i \<le> length pre \<Longrightarrow>
   removeDoctor i d (pre @ d # post) = pre @ (if post = [] then [] else last post # butlast post)"
proof (induction "length pre - i" arbitrary: i)
  case 0
  then have i: "i = length pre" by simp
  show ?case
  proof (cases "post = []")
    case True
    then show ?thesis using i by (subst removeDoctor.simps) (simp add: nth_append)
  next
    case False
    then have "(pre @ d # post) ! (length pre + length post) = last post"
      by (simp add: nth_append last_conv_nth)
    then show ?thesis using i False
      by (subst removeDoctor.simps) (simp add: nth_append butlast_append)
  qed
next
  case (Suc k)
  then have lt: "i < length pre" by simp
  then have "pre ! i \<noteq> d" using Suc.prems(1) by (metis nth_mem)
  moreover have "removeDoctor (i + 1) d (pre @ d # post)
     = pre @ (if post = [] then [] else last post # butlast post)"
    using Suc.hyps(1) [of "i + 1"] Suc.hyps(2) Suc.prems lt by simp
  ultimately show ?case using lt
    by (subst removeDoctor.simps) (simp add: nth_append)
qed

lemma rotate_last_set: "post \<noteq> [] \<Longrightarrow> set (last post # butlast post) = set post"
  by (metis append_butlast_last_id insert_is_Un list.simps(15) set_append sup_commute list.set(1))

lemma removeDoctor_member:
  assumes "distinct xs" and "d \<in> set xs"
  shows "set (removeDoctor 0 d xs) = set xs - {d}" and "distinct (removeDoctor 0 d xs)"
proof -
  from assms(2) obtain pre post where xs: "xs = pre @ d # post" and pre: "d \<notin> set pre"
    by (auto dest: split_list_first)
  from assms(1) xs have post: "d \<notin> set post" and dpre: "distinct pre" and dpost: "distinct post"
    and disj: "set pre \<inter> set post = {}" by auto
  have rd: "removeDoctor 0 d xs = pre @ (if post = [] then [] else last post # butlast post)"
    unfolding xs using pre by (rule removeDoctor_found) simp
  show "set (removeDoctor 0 d xs) = set xs - {d}"
  proof (cases "post = []")
    case True
    then show ?thesis using rd xs pre by auto
  next
    case False
    then have "set (removeDoctor 0 d xs) = set pre \<union> set post"
      using rd rotate_last_set [OF False] by simp
    then show ?thesis using xs pre post by auto
  qed
  show "distinct (removeDoctor 0 d xs)"
  proof (cases "post = []")
    case True
    then show ?thesis using rd dpre by simp
  next
    case False
    have "distinct (last post # butlast post)"
      using dpost False by (metis append_butlast_last_id distinct1_rotate rotate1.simps(2))
    then show ?thesis using rd False dpre disj rotate_last_set [OF False] by auto
  qed
qed

subsection \<open>The invariant holds in every reachable state\<close>

lemma consistent_deployed: "consistent deployed"
  by (simp add: consistent_def deployed_def)

lemma consistent_add:
  "consistent s \<Longrightarrow> consistent (snd (addMedicalRecord sender now n a h ipfs s))"
  by (auto simp add: addMedicalRecord_run consistent_def)

lemma consistent_grant: "consistent s \<Longrightarrow> consistent (snd (grantAccess sender now d s))"
  by (auto simp add: grantAccess_run consistent_def)

lemma consistent_revoke:
  assumes "consistent s"
  shows "consistent (snd (revokeAccess sender now d s))"
proof (cases "exists (patientRecords s sender) \<and> granted (doctorAccess s sender d)")
  case False
  then show ?thesis using assms by (auto simp add: revokeAccess_run)
next
  case True
  from assms True have mem: "d \<in> set (patientDoctors s sender)"
    and dist: "distinct (patientDoctors s sender)"
    by (simp_all add: consistent_def)
  have "set (removeDoctor 0 d (patientDoctors s sender)) = set (patientDoctors s sender) - {d}"
    and "distinct (removeDoctor 0 d (patientDoctors s sender))"
    using removeDoctor_member [OF dist mem] by simp_all
  then show ?thesis using assms True
    by (auto simp add: revokeAccess_run consistent_def)
qed

lemma consistent_access:
  "consistent s \<Longrightarrow> consistent (snd (accessMedicalRecord sender now p s))"
  by (simp add: accessMedicalRecord_run consistent_def)

lemma snd_forget: "snd (forget f s) = snd (f s)"
  by (simp add: forget_def split: prod.splits sum.splits)

lemma snd_transact_cases: "snd (transact f s) = s \<or> snd (transact f s) = snd (f s)"
  by (simp add: transact_def split: prod.splits sum.splits)

lemma consistent_run:
  assumes "consistent s"
  shows "consistent (snd (transact (run sender now c) s))"
proof -
  have "consistent (snd (run sender now c s))"
    using assms
    by (cases c)
      (simp_all add: snd_forget consistent_add consistent_grant consistent_revoke consistent_access
        getMedicalRecord_run checkAccess_run getAuthorizedDoctors_run getMyRecord_run
        recordExists_run)
  then show ?thesis
    using assms snd_transact_cases [of "run sender now c" s] by auto
qed

lemma reachable_consistent: "reachable s \<Longrightarrow> consistent s"
  by (induction rule: reachable.induct) (simp_all add: consistent_deployed consistent_run)

subsection \<open>Calls and views\<close>

lemma transact_eq_raw:
  "transact (addMedicalRecord sender now n a h ipfs) s = addMedicalRecord sender now n a h ipfs s"
  "transact (grantAccess sender now d) s = grantAccess sender now d s"
  "transact (revokeAccess sender now d) s = revokeAccess sender now d s"
  "transact (accessMedicalRecord sender now p) s = accessMedicalRecord sender now p s"
  "transact (getMedicalRecord sender p) s = getMedicalRecord sender p s"
  by (simp_all add: transact_def run_simps)

lemma transact_forget:
  "transact (forget f) s =
     (case transact f s of (Inl msg, s') \<Rightarrow> (Inl msg, s') | (Inr _, s') \<Rightarrow> (Inr (), s'))"
  by (simp add: transact_def forget_def split: prod.splits sum.splits)

lemma check_iff: "check s p d = granted (doctorAccess s p d)"
  by (simp add: check_def transact_def checkAccess_run)

lemma listAuthorizedDoctors_eq: "listAuthorizedDoctors s p = patientDoctors s p"
  by (simp add: listAuthorizedDoctors_def transact_def getAuthorizedDoctors_run)

lemma age_range: "(0 < a \<and> a < 150) = (1 \<le> unat a \<and> unat a \<le> 149)" for a :: uint256
  by (auto simp add: word_less_nat_alt)

lemma deployed_facts:
  "\<not> exists (patientRecords deployed p)"
  "\<not> granted (doctorAccess deployed p d)"
  "patientDoctors deployed p = []"
  "eventLog deployed = []"
  by (simp_all add: deployed_def)

lemma pair_fst_snd: "fst r = a \<Longrightarrow> r = (a, snd r)"
  by auto

subsection \<open>The example run\<close>

lemma registered_eq:
  "registered =
     \<lparr>patientRecords =
        (\<lambda>_. \<lparr>name = [], age = 0, medicalHistory = [], ipfsHash = [],
               timestamp = 0, exists = False\<rparr>)
        (1 := \<lparr>name = ''Jane Doe'', age = 40, medicalHistory = ''Asthma'', ipfsHash = [],
                timestamp = 100, exists = True\<rparr>),
      doctorAccess = (\<lambda>_ _. \<lparr>doctor = 0, granted = False, permission_timestamp = 0\<rparr>),
      patientDoctors = (\<lambda>_. []),
      eventLog = [MedicalRecordAdded 1 ''Jane Doe'' 40 100]\<rparr>"
  by (simp add: registered_def transact_def forget_def addMedicalRecord_run deployed_def)

lemma one_doctor_facts:
  "patientDoctors one_doctor 1 = [2]"
  "exists (patientRecords one_doctor 1)"
  "granted (doctorAccess one_doctor 1 2)"
  "eventLog one_doctor = [MedicalRecordAdded 1 ''Jane Doe'' 40 100, AccessGranted 1 2 101]"
  by (simp_all add: one_doctor_def registered_eq transact_def forget_def grantAccess_run)

lemma three_doctors_facts:
  "patientDoctors three_doctors 1 = [2, 3, 4]"
  "exists (patientRecords three_doctors 1)"
  "granted (doctorAccess three_doctors 1 2)"
  "granted (doctorAccess three_doctors 1 3)"
  "granted (doctorAccess three_doctors 1 4)"
  "\<not> granted (doctorAccess three_doctors 1 5)"
  by (simp_all add: three_doctors_def two_doctors_def one_doctor_def registered_eq
      transact_def forget_def grantAccess_run)

lemma reachable_demo:
  "reachable registered" "reachable one_doctor" "reachable two_doctors" "reachable three_doctors"
  unfolding registered_def one_doctor_def two_doctors_def three_doctors_def
  by (intro reachable.intros)+

lemma one_doctor_more:
  "doctor (doctorAccess one_doctor 1 2) = 2"
  "patientRecords one_doctor 1 =
     \<lparr>name = ''Jane Doe'', age = 40, medicalHistory = ''Asthma'', ipfsHash = [],
      timestamp = 100, exists = True\<rparr>"
  by (simp_all add: one_doctor_def registered_eq transact_def forget_def grantAccess_run)

lemma unlogged_read_example:
  "transact (getMedicalRecord 2 1) one_doctor = (Inr (patientRecords one_doctor 1), one_doctor)"
  "eventLog (snd (transact (accessMedicalRecord 2 105 1) one_doctor))
     = eventLog one_doctor @ [RecordAccessed 1 2 105]"
  by (simp_all add: transact_eq_raw getMedicalRecord_run accessMedicalRecord_run
      one_doctor_facts one_doctor_more)

lemma first_revoked_facts:
  "patientDoctors first_revoked 1 = [4, 3]"
  "permission_timestamp (doctorAccess first_revoked 1 3) = 102"
  "permission_timestamp (doctorAccess first_revoked 1 4) = 103"
  "\<not> granted (doctorAccess first_revoked 1 2)"
  "granted (doctorAccess first_revoked 1 3)"
  "granted (doctorAccess first_revoked 1 4)"
  by (simp_all add: first_revoked_def three_doctors_def two_doctors_def one_doctor_def
      registered_eq transact_def forget_def grantAccess_run revokeAccess_run
      removeDoctor.simps)

lemma one_doctor_others:
  "\<not> granted (doctorAccess one_doctor 1 3)"
  "\<not> exists (patientRecords one_doctor 7)"
  "\<not> granted (doctorAccess one_doctor 7 d)"
  by (simp_all add: one_doctor_def registered_eq transact_def forget_def grantAccess_run)

lemma example_steps:
  "transact (grantAccess 1 102 3) one_doctor = (Inr (), two_doctors)"
  "transact (revokeAccess 1 104 2) three_doctors = (Inr (), first_revoked)"
  "transact (run 1 104 (RevokeAccess 2)) three_doctors = (Inr (), first_revoked)"
  by (simp_all add: two_doctors_def first_revoked_def transact_forget transact_eq_raw
      grantAccess_run revokeAccess_run one_doctor_facts one_doctor_others
      three_doctors_facts)

lemma three_doctors_log:
  "eventLog three_doctors =
     [MedicalRecordAdded 1 ''Jane Doe'' 40 100, AccessGranted 1 2 101,
      AccessGranted 1 3 102, AccessGranted 1 4 103]"
  "eventLog first_revoked = eventLog three_doctors @ [AccessRevoked 1 2 104]"
  by (simp_all add: first_revoked_def three_doctors_def two_doctors_def one_doctor_def
      registered_eq transact_def forget_def grantAccess_run revokeAccess_run)

lemma other_order_facts:
  "patientDoctors other_order 1 = [3, 4]"
  "doctorAccess other_order = doctorAccess first_revoked"
  "patientRecords other_order = patientRecords first_revoked"
  by (simp_all add: other_order_def revoked_early_def first_revoked_def three_doctors_def
      two_doctors_def one_doctor_def registered_eq transact_def forget_def grantAccess_run
      revokeAccess_run removeDoctor.simps fun_eq_iff)

lemma reachable_revoked:
  "reachable first_revoked" "reachable other_order"
  unfolding first_revoked_def other_order_def revoked_early_def
  by (intro reachable.call reachable_demo)+

section \<open>The properties of the specification\<close>

text \<open>
  Claim C1, as amended. For every patient \<open>P\<close>, \<^verbatim>\<open>listAuthorizedDoctors(P)\<close> returns
  exactly the doctors that are currently granted, each of them once. A successful grant
  puts the doctor at the end of the list. A successful \<^verbatim>\<open>revoke(P, D)\<close> removes \<open>D\<close>
  by moving the last entry of the list into the position of \<open>D\<close> (and just drops the
  last entry when that is \<open>D\<close>): every other entry keeps its position, the moved entry
  does not keep its place behind the entries between \<open>D\<close> and the end.
\<close>

theorem C1_revoke_moves_last_entry:
  assumes "reachable s"
  shows "set (listAuthorizedDoctors s P) = {d. check s P d} \<and>
     distinct (listAuthorizedDoctors s P) \<and>
     (transact (grantAccess P now G) s = (Inr (), s1) \<longrightarrow>
        listAuthorizedDoctors s1 P = listAuthorizedDoctors s P @ [G]) \<and>
     (transact (revokeAccess P now D) s = (Inr (), s2) \<longrightarrow>
        (\<exists>pre post. listAuthorizedDoctors s P = pre @ D # post \<and>
           D \<notin> set pre \<and> D \<notin> set post \<and>
           listAuthorizedDoctors s2 P =
             pre @ (if post = [] then [] else last post # butlast post)))"
proof -
  note c = reachable_consistent [OF assms]
  have members: "set (listAuthorizedDoctors s P) = {d. check s P d}"
    and once: "distinct (listAuthorizedDoctors s P)"
    using c by (auto simp add: consistent_def listAuthorizedDoctors_eq check_iff)
  have grant: "listAuthorizedDoctors s1 P = listAuthorizedDoctors s P @ [G]"
    if "transact (grantAccess P now G) s = (Inr (), s1)"
    using that
    by (auto simp add: listAuthorizedDoctors_eq transact_eq_raw grantAccess_run
        split: if_splits)
  have revoke: "\<exists>pre post. listAuthorizedDoctors s P = pre @ D # post \<and>
      D \<notin> set pre \<and> D \<notin> set post \<and>
      listAuthorizedDoctors s2 P = pre @ (if post = [] then [] else last post # butlast post)"
    if r: "transact (revokeAccess P now D) s = (Inr (), s2)"
  proof -
    from r have g: "granted (doctorAccess s P D)"
      and s2: "patientDoctors s2 P = removeDoctor 0 D (patientDoctors s P)"
      by (auto simp add: transact_eq_raw revokeAccess_run split: if_splits)
    from c g have "D \<in> set (patientDoctors s P)"
      by (simp add: consistent_def)
    then obtain pre post where xs: "patientDoctors s P = pre @ D # post" and pre: "D \<notin> set pre"
      by (auto dest: split_list_first)
    from c have "distinct (patientDoctors s P)"
      by (simp add: consistent_def)
    with xs have post: "D \<notin> set post"
      by simp
    have "removeDoctor 0 D (pre @ D # post)
        = pre @ (if post = [] then [] else last post # butlast post)"
      using pre by (rule removeDoctor_found) simp
    with xs s2 pre post show ?thesis
      by (simp only: listAuthorizedDoctors_eq) blast
  qed
  from members once grant revoke show ?thesis
    by blast
qed

text \<open>The theorem at the example run: granting doctor 5 after the doctors 2, 3 and 4,
  and revoking doctor 2.\<close>

theorem C1_witness:
  "reachable three_doctors \<and>
   distinct (listAuthorizedDoctors three_doctors 1) \<and>
   transact (grantAccess 1 104 5) three_doctors
     = (Inr (), snd (transact (grantAccess 1 104 5) three_doctors)) \<and>
   listAuthorizedDoctors (snd (transact (grantAccess 1 104 5) three_doctors)) 1
     = listAuthorizedDoctors three_doctors 1 @ [5] \<and>
   transact (revokeAccess 1 104 2) three_doctors = (Inr (), first_revoked) \<and>
   (\<exists>pre post. listAuthorizedDoctors three_doctors 1 = pre @ 2 # post \<and>
      2 \<notin> set pre \<and> 2 \<notin> set post \<and>
      listAuthorizedDoctors first_revoked 1
        = pre @ (if post = [] then [] else last post # butlast post))"
proof -
  have g: "transact (grantAccess 1 104 5) three_doctors
     = (Inr (), snd (transact (grantAccess 1 104 5) three_doctors))"
    by (rule pair_fst_snd) (simp add: transact_eq_raw grantAccess_run three_doctors_facts)
  from C1_revoke_moves_last_entry [OF reachable_demo(4), where P = 1 and now = 104
      and G = 5 and ?s1.0 = "snd (transact (grantAccess 1 104 5) three_doctors)"
      and D = 2 and ?s2.0 = first_revoked]
  show ?thesis
    using g example_steps(2) reachable_demo(4) by blast
qed

text \<open>
  The claim as it is written fails: doctors 2, 3 and 4 are granted in this order, and
  revoking doctor 2 leaves the list 4, 3, where order-preserving removal leaves 3, 4.
  Doctor 3 was granted at time 102 and doctor 4 at time 103, so the list is not in grant
  order either.
\<close>

theorem C1_counterexample:
  "reachable three_doctors \<and>
   listAuthorizedDoctors three_doctors 1 = [2, 3, 4] \<and>
   transact (revokeAccess 1 104 2) three_doctors = (Inr (), first_revoked) \<and>
   listAuthorizedDoctors first_revoked 1 = [4, 3] \<and>
   listAuthorizedDoctors first_revoked 1 \<noteq> removeAll 2 (listAuthorizedDoctors three_doctors 1) \<and>
   permission_timestamp (doctorAccess first_revoked 1 3) = 102 \<and>
   permission_timestamp (doctorAccess first_revoked 1 4) = 103"
  by (simp add: reachable_demo listAuthorizedDoctors_eq three_doctors_facts
      first_revoked_facts example_steps)

text \<open>
  Claim C2, as amended. In every reachable state, for every caller \<open>C\<close> and patient
  \<open>P\<close>, \<^verbatim>\<open>readRecord(C, P)\<close> (the logged read \<^verbatim>\<open>accessMedicalRecord\<close>) fails with
  AccessDenied exactly when \<open>C\<close> is not \<open>P\<close> and \<^verbatim>\<open>check(P, C)\<close> is false,
  whether or not \<open>P\<close> has a record: AccessDenied takes precedence over NotFound.
  Otherwise it fails with NotFound when \<open>P\<close> has no record, and it succeeds, returning
  the record of \<open>P\<close>, when \<open>P\<close> has one.
\<close>

theorem C2_read_authorization:
  assumes "reachable s"
  shows "failure (transact (accessMedicalRecord C now P) s) =
     (if \<not> (C = P \<or> check s P C) then Some AccessDenied
      else if \<not> exists (patientRecords s P) then Some NotFound
      else None) \<and>
     (failure (transact (accessMedicalRecord C now P) s) = None \<longrightarrow>
        fst (transact (accessMedicalRecord C now P) s) = Inr (patientRecords s P))"
  using reachable_consistent [OF assms]
  by (auto simp add: consistent_def check_iff failure_def transact_eq_raw
      accessMedicalRecord_run)

text \<open>The theorem at the example run: doctor 2, who is granted, reads the record of
  patient 1; doctor 3, who is not, is denied for patient 1 and also for address 7, which
  has no record; address 7 reading its own record gets NotFound.\<close>

theorem C2_witness:
  "reachable one_doctor \<and>
   failure (transact (accessMedicalRecord 2 105 1) one_doctor) = None \<and>
   fst (transact (accessMedicalRecord 2 105 1) one_doctor) = Inr (patientRecords one_doctor 1) \<and>
   failure (transact (accessMedicalRecord 3 105 1) one_doctor) = Some AccessDenied \<and>
   failure (transact (accessMedicalRecord 3 105 7) one_doctor) = Some AccessDenied \<and>
   failure (transact (accessMedicalRecord 7 105 7) one_doctor) = Some NotFound"
  using C2_read_authorization [OF reachable_demo(2), of 2 105 1]
    C2_read_authorization [OF reachable_demo(2), of 3 105 1]
    C2_read_authorization [OF reachable_demo(2), of 3 105 7]
    C2_read_authorization [OF reachable_demo(2), of 7 105 7]
  by (simp add: reachable_demo check_iff one_doctor_facts one_doctor_others)

text \<open>
  The claim as it is written fails: a patient without a record who reads their own
  record is the caller \<open>C = P\<close>, and the read does not succeed but fails with NotFound.
\<close>

theorem C2_counterexample:
  "reachable deployed \<and>
   failure (transact (accessMedicalRecord 1 100 1) deployed) = Some NotFound \<and>
   \<not> ((failure (transact (accessMedicalRecord 1 100 1) deployed) = None)
        = ((1 :: address) = 1 \<or> check deployed 1 1))"
  by (simp add: reachable.init failure_def transact_eq_raw accessMedicalRecord_run
      deployed_facts)

text \<open>
  Claim C3, as amended. In every reachable state, for every patient \<open>P\<close> that has a
  record and every doctor \<open>D\<close>, \<^verbatim>\<open>grant(P, D)\<close> fails with InvalidDoctor when \<open>D\<close> is
  \<open>P\<close>; for a patient without a record it fails with NotFound. It fails with
  AlreadyGranted when the entry of \<open>(P, D)\<close> has \<open>granted = true\<close>. On success the
  entry has \<open>granted = true\<close> and the current time as its timestamp, \<^verbatim>\<open>check(P, D)\<close> is
  true and \<open>D\<close> occurs exactly once in \<^verbatim>\<open>listAuthorizedDoctors(P)\<close>.
\<close>

theorem C3_grant:
  assumes "reachable s"
  shows "(D = P \<and> exists (patientRecords s P) \<longrightarrow>
            failure (transact (grantAccess P now D) s) = Some InvalidDoctor) \<and>
         (\<not> exists (patientRecords s P) \<longrightarrow>
            failure (transact (grantAccess P now D) s) = Some NotFound) \<and>
         (check s P D \<longrightarrow> failure (transact (grantAccess P now D) s) = Some AlreadyGranted) \<and>
         (transact (grantAccess P now D) s = (Inr (), s') \<longrightarrow>
            granted (doctorAccess s' P D) \<and> permission_timestamp (doctorAccess s' P D) = now \<and>
            check s' P D \<and> count_list (listAuthorizedDoctors s' P) D = 1)"
proof -
  note c = reachable_consistent [OF assms]
  have absent: "\<not> granted (doctorAccess s P D) \<Longrightarrow> count_list (patientDoctors s P) D = 0"
    using c by (simp add: consistent_def count_list_0_iff)
  show ?thesis
    using c absent
    by (auto simp add: consistent_def check_iff listAuthorizedDoctors_eq failure_def
        transact_eq_raw grantAccess_run split: if_splits)
qed

text \<open>The theorem at the example run, after the first grant: patient 1 grants to
  themselves, to doctor 2 again and to doctor 3; address 7, without a record, grants to
  itself.\<close>

theorem C3_witness:
  "reachable one_doctor \<and>
   exists (patientRecords one_doctor 1) \<and>
   failure (transact (grantAccess 1 102 1) one_doctor) = Some InvalidDoctor \<and>
   failure (transact (grantAccess 7 102 7) one_doctor) = Some NotFound \<and>
   check one_doctor 1 2 \<and>
   failure (transact (grantAccess 1 102 2) one_doctor) = Some AlreadyGranted \<and>
   transact (grantAccess 1 102 3) one_doctor = (Inr (), two_doctors) \<and>
   granted (doctorAccess two_doctors 1 3) \<and>
   permission_timestamp (doctorAccess two_doctors 1 3) = 102 \<and>
   check two_doctors 1 3 \<and>
   count_list (listAuthorizedDoctors two_doctors 1) 3 = 1"
  using C3_grant [OF reachable_demo(2), of 1 1 102]
    C3_grant [OF reachable_demo(2), of 7 7 102]
    C3_grant [OF reachable_demo(2), of 2 1 102]
    C3_grant [OF reachable_demo(2), of 3 1 102 two_doctors]
  by (simp add: reachable_demo check_iff one_doctor_facts one_doctor_others example_steps)

text \<open>
  The claim as it is written fails: a patient without a record who grants access to
  themselves gets NotFound, not InvalidDoctor, because the \<^verbatim>\<open>patientExists\<close> modifier
  runs before the checks on the doctor.
\<close>

theorem C3_counterexample:
  "reachable deployed \<and>
   failure (transact (grantAccess 1 100 1) deployed) = Some NotFound \<and>
   failure (transact (grantAccess 1 100 1) deployed) \<noteq> Some InvalidDoctor"
  by (simp add: reachable.init failure_def transact_eq_raw grantAccess_run deployed_facts)

text \<open>
  Claim C4, as amended. In every reachable state, for every patient \<open>P\<close> that has a
  record and every doctor \<open>D\<close>, \<^verbatim>\<open>revoke(P, D)\<close> fails with NotGranted exactly when
  no entry of \<open>(P, D)\<close> exists or the entry has \<open>granted = false\<close>; for a patient
  without a record it fails with NotFound. After a successful revoke, \<^verbatim>\<open>check(P, D)\<close>
  is false and \<open>D\<close> is absent from \<^verbatim>\<open>listAuthorizedDoctors(P)\<close>.
\<close>

theorem C4_revoke:
  assumes "reachable s"
  shows "(exists (patientRecords s P) \<longrightarrow>
            (failure (transact (revokeAccess P now D) s) = Some NotGranted) = (\<not> check s P D)) \<and>
         (\<not> exists (patientRecords s P) \<longrightarrow>
            failure (transact (revokeAccess P now D) s) = Some NotFound) \<and>
         (transact (revokeAccess P now D) s = (Inr (), s') \<longrightarrow>
            \<not> check s' P D \<and> D \<notin> set (listAuthorizedDoctors s' P))"
proof -
  note c = reachable_consistent [OF assms]
  have "D \<notin> set (removeDoctor 0 D (patientDoctors s P))" if "granted (doctorAccess s P D)"
  proof -
    from c that have "D \<in> set (patientDoctors s P)" and "distinct (patientDoctors s P)"
      by (simp_all add: consistent_def)
    from removeDoctor_member(1) [OF this(2) this(1)] show ?thesis by simp
  qed
  then show ?thesis
    by (auto simp add: check_iff listAuthorizedDoctors_eq failure_def
        transact_eq_raw revokeAccess_run split: if_splits)
qed

text \<open>The theorem at the example run: with doctors 2, 3 and 4 granted, patient 1
  revokes doctor 5, who was never granted, and doctor 2; address 7, without a record,
  revokes doctor 2.\<close>

theorem C4_witness:
  "reachable three_doctors \<and>
   exists (patientRecords three_doctors 1) \<and>
   \<not> check three_doctors 1 5 \<and>
   failure (transact (revokeAccess 1 104 5) three_doctors) = Some NotGranted \<and>
   failure (transact (revokeAccess 7 104 2) three_doctors) = Some NotFound \<and>
   transact (revokeAccess 1 104 2) three_doctors = (Inr (), first_revoked) \<and>
   \<not> check first_revoked 1 2 \<and>
   2 \<notin> set (listAuthorizedDoctors first_revoked 1)"
proof -
  have "\<not> exists (patientRecords three_doctors 7)"
    by (simp add: three_doctors_def two_doctors_def one_doctor_def registered_eq
        transact_def forget_def grantAccess_run)
  then show ?thesis
    using C4_revoke [OF reachable_demo(4), of 1 104 5]
      C4_revoke [OF reachable_demo(4), of 7 104 2]
      C4_revoke [OF reachable_demo(4), of 1 104 2 first_revoked]
    by (simp add: reachable_demo check_iff three_doctors_facts example_steps)
qed

text \<open>
  The claim as it is written fails: for a patient without a record no entry is granted,
  and the revoke fails with NotFound, not with NotGranted, because the
  \<^verbatim>\<open>patientExists\<close> modifier runs first.
\<close>

theorem C4_counterexample:
  "reachable deployed \<and> \<not> check deployed 1 2 \<and>
   failure (transact (revokeAccess 1 100 2) deployed) = Some NotFound \<and>
   failure (transact (revokeAccess 1 100 2) deployed) \<noteq> Some NotGranted"
  by (simp add: reachable.init failure_def transact_eq_raw revokeAccess_run deployed_facts
      check_iff)

text \<open>
  Claim C5. A successful \<^verbatim>\<open>readRecord(C, P)\<close> (\<^verbatim>\<open>accessMedicalRecord\<close>) appends a
  \<^verbatim>\<open>RecordAccessed\<close> event if and only if \<open>C\<close> is not \<open>P\<close>: a read by a third party
  appends the event for this patient, reader and time, and a read by the patient leaves
  the event log as it was.
\<close>

theorem C5_access_logged_iff_third_party:
  assumes "transact (accessMedicalRecord C now P) s = (Inr r, s')"
  shows "(C \<noteq> P \<longrightarrow> eventLog s' = eventLog s @ [RecordAccessed P C now]) \<and>
         (C = P \<longrightarrow> eventLog s' = eventLog s)"
  using assms
  by (auto simp add: transact_eq_raw accessMedicalRecord_run split: if_splits)

text \<open>The theorem at the example run: doctor 2 and patient 1 read the record of
  patient 1.\<close>

theorem C5_witness:
  "transact (accessMedicalRecord 2 105 1) one_doctor
     = (Inr (patientRecords one_doctor 1), snd (transact (accessMedicalRecord 2 105 1) one_doctor)) \<and>
   eventLog (snd (transact (accessMedicalRecord 2 105 1) one_doctor))
     = eventLog one_doctor @ [RecordAccessed 1 2 105] \<and>
   transact (accessMedicalRecord 1 105 1) one_doctor
     = (Inr (patientRecords one_doctor 1), snd (transact (accessMedicalRecord 1 105 1) one_doctor)) \<and>
   eventLog (snd (transact (accessMedicalRecord 1 105 1) one_doctor)) = eventLog one_doctor"
proof -
  have third: "transact (accessMedicalRecord 2 105 1) one_doctor
     = (Inr (patientRecords one_doctor 1), snd (transact (accessMedicalRecord 2 105 1) one_doctor))"
    by (rule pair_fst_snd)
      (simp add: transact_eq_raw accessMedicalRecord_run one_doctor_facts one_doctor_more)
  have self: "transact (accessMedicalRecord 1 105 1) one_doctor
     = (Inr (patientRecords one_doctor 1), snd (transact (accessMedicalRecord 1 105 1) one_doctor))"
    by (rule pair_fst_snd)
      (simp add: transact_eq_raw accessMedicalRecord_run one_doctor_facts)
  from C5_access_logged_iff_third_party [OF third] C5_access_logged_iff_third_party [OF self]
    third self
  show ?thesis by simp
qed

text \<open>
  Claim C6. \<^verbatim>\<open>addOrUpdateRecord\<close> (\<^verbatim>\<open>addMedicalRecord\<close>) fails with ValidationError
  exactly when the name is empty, the medical history is empty, or the age is outside
  the range 1 to 149, bounds included. Otherwise it succeeds, and the record of the
  caller then holds the given name, age, history and document hash, the current time,
  and \<open>exists = true\<close>, whether or not the caller had a record before; the records of
  all other patients are as they were.
\<close>

theorem C6_addMedicalRecord_validation:
  "(failure (transact (addMedicalRecord sender now n a h ipfs) s) = Some ValidationError)
     = (n = [] \<or> h = [] \<or> \<not> (1 \<le> unat a \<and> unat a \<le> 149)) \<and>
   (\<not> (n = [] \<or> h = [] \<or> \<not> (1 \<le> unat a \<and> unat a \<le> 149)) \<longrightarrow>
      (\<exists>s'. transact (addMedicalRecord sender now n a h ipfs) s = (Inr (), s') \<and>
         patientRecords s' sender =
           \<lparr>name = n, age = a, medicalHistory = h, ipfsHash = ipfs,
            timestamp = now, exists = True\<rparr> \<and>
         (\<forall>p. p \<noteq> sender \<longrightarrow> patientRecords s' p = patientRecords s p)))"
  using age_range [of a]
  by (auto simp add: transact_eq_raw addMedicalRecord_run failure_def)

text \<open>The theorem at the ages 150 and 0, at an empty name and an empty history, and at
  the age 149 for a patient who has a record already.\<close>

theorem C6_witness:
  "failure (transact (addMedicalRecord 1 105 ''Jane Doe'' 150 ''Asthma'' '''') one_doctor)
     = Some ValidationError \<and>
   failure (transact (addMedicalRecord 1 105 ''Jane Doe'' 0 ''Asthma'' '''') one_doctor)
     = Some ValidationError \<and>
   failure (transact (addMedicalRecord 1 105 '''' 40 ''Asthma'' '''') one_doctor)
     = Some ValidationError \<and>
   failure (transact (addMedicalRecord 1 105 ''Jane Doe'' 40 '''' '''') one_doctor)
     = Some ValidationError \<and>
   fst (transact (addMedicalRecord 1 105 ''Jane Roe'' 149 ''Asthma'' ''Qm'') one_doctor)
     = Inr () \<and>
   patientRecords
     (snd (transact (addMedicalRecord 1 105 ''Jane Roe'' 149 ''Asthma'' ''Qm'') one_doctor)) 1
     = \<lparr>name = ''Jane Roe'', age = 149, medicalHistory = ''Asthma'', ipfsHash = ''Qm'',
        timestamp = 105, exists = True\<rparr>"
  using C6_addMedicalRecord_validation [of 1 105 "''Jane Doe''" 150 "''Asthma''" "''''" one_doctor]
    C6_addMedicalRecord_validation [of 1 105 "''Jane Doe''" 0 "''Asthma''" "''''" one_doctor]
    C6_addMedicalRecord_validation [of 1 105 "''''" 40 "''Asthma''" "''''" one_doctor]
    C6_addMedicalRecord_validation [of 1 105 "''Jane Doe''" 40 "''''" "''''" one_doctor]
    C6_addMedicalRecord_validation [of 1 105 "''Jane Roe''" 149 "''Asthma''" "''Qm''" one_doctor]
  by auto

text \<open>
  Claim C7. Every successful mutating call (\<^verbatim>\<open>addOrUpdateRecord\<close>, \<^verbatim>\<open>grantAccess\<close>,
  \<^verbatim>\<open>revokeAccess\<close>, and \<^verbatim>\<open>readRecord\<close> by a third party) appends exactly one event
  to the event log. With the events numbered from 1 in the order of the log, the
  appended event gets the number after the length of the log, the numbers of the
  earlier events are unchanged and all smaller, and the first event ever appended gets
  the number 1.
\<close>

theorem C7_one_event_per_mutation:
  assumes "mutating sender c" and "transact (run sender now c) s = (Inr v, s')"
  shows "\<exists>e. eventLog s' = eventLog s @ [e] \<and>
     numbered (eventLog s') = numbered (eventLog s) @ [(Suc (length (eventLog s)), e)] \<and>
     (\<forall>(k, e') \<in> set (numbered (eventLog s)). k < Suc (length (eventLog s))) \<and>
     (eventLog s = [] \<longrightarrow> numbered (eventLog s') = [(1, e)])"
proof -
  have "\<exists>e. eventLog s' = eventLog s @ [e]"
    using assms
    by (cases c) (auto simp add: transact_forget transact_eq_raw run_simps split: if_splits)
  then obtain e where e: "eventLog s' = eventLog s @ [e]" ..
  have appended: "numbered (xs @ [x]) = numbered xs @ [(Suc (length xs), x)]"
    for xs and x :: event
    by (simp add: numbered_def enumerate_append_eq)
  have smaller: "\<forall>(k, e') \<in> set (numbered xs). k < Suc (length xs)" for xs
    by (auto simp add: numbered_def in_set_enumerate_eq)
  show ?thesis
    using e appended [of "eventLog s" e] smaller [of "eventLog s"]
    by (auto simp add: numbered_def)
qed

text \<open>The theorem at the example run: the revoke that follows the record and the three
  grants appends the fifth event.\<close>

theorem C7_witness:
  "mutating 1 (RevokeAccess 2) \<and>
   transact (run 1 104 (RevokeAccess 2)) three_doctors = (Inr (), first_revoked) \<and>
   (\<exists>e. eventLog first_revoked = eventLog three_doctors @ [e] \<and>
      numbered (eventLog first_revoked) = numbered (eventLog three_doctors) @ [(5, e)])"
proof -
  have m: "mutating 1 (RevokeAccess 2)"
    by simp
  from C7_one_event_per_mutation [OF m example_steps(3)] m example_steps(3)
  show ?thesis
    by (auto simp add: three_doctors_log)
qed

text \<open>
  Claim C8, as amended. In every state that any sequence of calls reaches, for every
  patient \<open>P\<close> and doctor \<open>D\<close>, \<open>D\<close> is in the doctor list of \<open>P\<close> if and only if
  the permission entry of \<open>(P, D)\<close> has \<open>granted = true\<close>, and the list has no entry
  twice. So the permission map determines which doctors the list holds and how long it
  is: two reachable states with the same permission entries for \<open>P\<close> have lists of
  \<open>P\<close> with the same entries and the same length. It does not determine the order of
  the entries.
\<close>

theorem C8_doctor_list_consistent:
  assumes "reachable s"
  shows "(D \<in> set (patientDoctors s P)) = granted (doctorAccess s P D) \<and>
     set (listAuthorizedDoctors s P) = {d. check s P d} \<and>
     distinct (listAuthorizedDoctors s P) \<and>
     (reachable t \<and> doctorAccess t P = doctorAccess s P \<longrightarrow>
        set (listAuthorizedDoctors t P) = set (listAuthorizedDoctors s P) \<and>
        length (listAuthorizedDoctors t P) = length (listAuthorizedDoctors s P))"
proof -
  have members: "set (patientDoctors u P) = {d. granted (doctorAccess u P d)}"
    and once: "distinct (patientDoctors u P)" if "reachable u" for u
    using reachable_consistent [OF that] by (auto simp add: consistent_def)
  have same: "set (patientDoctors t P) = set (patientDoctors s P) \<and>
      length (patientDoctors t P) = length (patientDoctors s P)"
    if t: "reachable t" and eq: "doctorAccess t P = doctorAccess s P"
  proof -
    have sets: "set (patientDoctors t P) = set (patientDoctors s P)"
      using members [OF t] members [OF assms] eq by simp
    have "length (patientDoctors t P) = card (set (patientDoctors t P))"
      using once [OF t] by (simp add: distinct_card)
    also have "\<dots> = card (set (patientDoctors s P))"
      using sets by simp
    also have "\<dots> = length (patientDoctors s P)"
      using once [OF assms] by (simp add: distinct_card)
    finally show ?thesis
      using sets by simp
  qed
  show ?thesis
    using members [OF assms] once [OF assms] same
    by (auto simp add: listAuthorizedDoctors_eq check_iff)
qed

text \<open>The theorem at the two example runs, which end with the same permission map, for
  the revoked doctor 2 and for doctor 3.\<close>

theorem C8_witness:
  "reachable first_revoked \<and>
   (2 \<in> set (patientDoctors first_revoked 1)) = granted (doctorAccess first_revoked 1 2) \<and>
   (3 \<in> set (patientDoctors first_revoked 1)) = granted (doctorAccess first_revoked 1 3) \<and>
   granted (doctorAccess first_revoked 1 3) \<and>
   distinct (listAuthorizedDoctors first_revoked 1) \<and>
   reachable other_order \<and>
   doctorAccess other_order 1 = doctorAccess first_revoked 1 \<and>
   set (listAuthorizedDoctors other_order 1) = set (listAuthorizedDoctors first_revoked 1) \<and>
   length (listAuthorizedDoctors other_order 1) = length (listAuthorizedDoctors first_revoked 1)"
  using C8_doctor_list_consistent [OF reachable_revoked(1), of 2 1 other_order]
    C8_doctor_list_consistent [OF reachable_revoked(1), of 3 1 other_order]
    reachable_revoked
  by (simp add: first_revoked_facts other_order_facts)

text \<open>
  The claim as it is written fails in its last part: the list is not derivable from the
  permission map. The two example runs reach states with the same permission map and the
  same records, and patient 1 has the list 4, 3 in the one and 3, 4 in the other.
\<close>

theorem C8_counterexample:
  "reachable first_revoked \<and> reachable other_order \<and>
   doctorAccess other_order = doctorAccess first_revoked \<and>
   patientRecords other_order = patientRecords first_revoked \<and>
   listAuthorizedDoctors first_revoked 1 = [4, 3] \<and>
   listAuthorizedDoctors other_order 1 = [3, 4] \<and>
   listAuthorizedDoctors other_order 1 \<noteq> listAuthorizedDoctors first_revoked 1"
  by (simp add: reachable_revoked other_order_facts first_revoked_facts
      listAuthorizedDoctors_eq)

text \<open>
  Claim C9. A call that fails, with whatever error, leaves the whole state as it was:
  record map, permission map, doctor lists and event log. This holds for each of the
  nine functions, and not only by the roll-back of the revert: the run of the function
  had written nothing when it stopped, since every check comes before the first write.
  So a call either runs to its end, with all its writes and its event, or changes nothing.
\<close>

theorem C9_failure_leaves_state:
  assumes "fst (transact (run sender now c) s) = Inl msg"
  shows "snd (transact (run sender now c) s) = s \<and> run sender now c s = (Inl msg, s)"
  using assms
  by (cases c) (auto simp add: transact_def forget_def run_simps split: if_splits)

text \<open>The theorem at the example run: patient 1 grants access to doctor 2 a second
  time.\<close>

theorem C9_witness:
  "fst (transact (run 1 105 (GrantAccess 2)) one_doctor) = Inl Access_already_granted \<and>
   snd (transact (run 1 105 (GrantAccess 2)) one_doctor) = one_doctor \<and>
   run 1 105 (GrantAccess 2) one_doctor = (Inl Access_already_granted, one_doctor)"
proof -
  have f: "fst (transact (run 1 105 (GrantAccess 2)) one_doctor) = Inl Access_already_granted"
    by (simp add: transact_forget transact_eq_raw grantAccess_run one_doctor_facts)
  from C9_failure_leaves_state [OF f] f show ?thesis
    by simp
qed

text \<open>
  Claim C10. The contract has a second read, \<^verbatim>\<open>getMedicalRecord\<close>, that admits and
  returns exactly what the logged read \<^verbatim>\<open>accessMedicalRecord\<close> does and never changes
  the state. There is a reachable state in which a doctor other than the patient, for
  whom \<^verbatim>\<open>check\<close> holds, reads the record of the patient through it and the event log
  stays as it was, while the logged read appends an event there.
\<close>

theorem C10_getMedicalRecord_unlogged:
  "fst (transact (getMedicalRecord C P) s) = fst (transact (accessMedicalRecord C now P) s) \<and>
   snd (transact (getMedicalRecord C P) s) = s \<and>
   (\<exists>s' D' P'. reachable s' \<and> D' \<noteq> P' \<and> check s' P' D' \<and>
      transact (getMedicalRecord D' P') s' = (Inr (patientRecords s' P'), s') \<and>
      eventLog (snd (transact (getMedicalRecord D' P') s')) = eventLog s' \<and>
      eventLog (snd (transact (accessMedicalRecord D' 105 P') s')) \<noteq> eventLog s')"
proof -
  have "reachable one_doctor \<and> (2 :: address) \<noteq> 1 \<and> check one_doctor 1 2 \<and>
      transact (getMedicalRecord 2 1) one_doctor = (Inr (patientRecords one_doctor 1), one_doctor) \<and>
      eventLog (snd (transact (getMedicalRecord 2 1) one_doctor)) = eventLog one_doctor \<and>
      eventLog (snd (transact (accessMedicalRecord 2 105 1) one_doctor)) \<noteq> eventLog one_doctor"
    by (simp add: reachable_demo check_iff one_doctor_facts unlogged_read_example)
  then have "\<exists>s' D' P'. reachable s' \<and> D' \<noteq> P' \<and> check s' P' D' \<and>
      transact (getMedicalRecord D' P') s' = (Inr (patientRecords s' P'), s') \<and>
      eventLog (snd (transact (getMedicalRecord D' P') s')) = eventLog s' \<and>
      eventLog (snd (transact (accessMedicalRecord D' 105 P') s')) \<noteq> eventLog s'"
    by blast
  moreover have "fst (transact (getMedicalRecord C P) s)
      = fst (transact (accessMedicalRecord C now P) s)"
    by (simp add: transact_eq_raw getMedicalRecord_run accessMedicalRecord_run)
  moreover have "snd (transact (getMedicalRecord C P) s) = s"
    by (simp add: transact_eq_raw getMedicalRecord_run)
  ultimately show ?thesis
    by blast
qed

text \<open>The theorem at the example run: doctor 2 reads the record of patient 1 both
  ways.\<close>

theorem C10_witness:
  "fst (transact (getMedicalRecord 2 1) one_doctor)
     = fst (transact (accessMedicalRecord 2 105 1) one_doctor) \<and>
   fst (transact (getMedicalRecord 2 1) one_doctor) = Inr (patientRecords one_doctor 1) \<and>
   snd (transact (getMedicalRecord 2 1) one_doctor) = one_doctor \<and>
   eventLog (snd (transact (accessMedicalRecord 2 105 1) one_doctor))
     = eventLog one_doctor @ [RecordAccessed 1 2 105]"
  using C10_getMedicalRecord_unlogged [of 2 1 one_doctor 105]
  by (simp add: unlogged_read_example)

end
